theory Spec2Isabelle
  imports Main "HOL-Library.Multiset"
begin

section \<open>Data model\<close>

text \<open>
  The struct \<open>User\<close> of \<^verbatim>\<open>sqlite.go\<close>, the Go value a row is scanned into. Go's \<open>int\<close>
  is 64 bits wide; the program does no arithmetic on it, so ids, scores and amounts are
  integers that the callers take from the range of \<open>int64\<close>.
\<close>

record User =
  ID :: int
  Name :: string
  Email :: string
  Score :: int

text \<open>The zero value of \<^verbatim>\<open>var user User\<close>.\<close>

definition zero_User :: User where
  "zero_User = \<lparr>ID = 0, Name = [], Email = [], Score = 0\<rparr>"

subsection \<open>Values of the score column\<close>

definition MinInt64 :: int where
  "MinInt64 = - 9223372036854775808"

definition MaxInt64 :: int where
  "MaxInt64 = 9223372036854775807"

definition int64 :: "int \<Rightarrow> bool" where
  "int64 i = (MinInt64 \<le> i \<and> i \<le> MaxInt64)"

text \<open>
  A value stored in the column \<open>score\<close> is of storage class INTEGER (a 64-bit integer) or
  REAL (a double). Every double the statements of this program can produce is a whole
  number, so a REAL is given by the integer it equals.
\<close>

datatype sqlval =
    INTEGER int
  | REAL int

fun num :: "sqlval \<Rightarrow> int" where
  "num (INTEGER i) = i"
| "num (REAL r) = r"

fun is_INTEGER :: "sqlval \<Rightarrow> bool" where
  "is_INTEGER (INTEGER i) = True"
| "is_INTEGER (REAL r) = False"

text \<open>
  The conversion of an integer to a double, as the C cast of the engine does it: the
  nearest number with 53 significant bits, a tie going to the even one. \<open>bitlen\<close> counts
  the bits of a positive integer, \<open>round53\<close> rounds a non-negative one.
\<close>

function bitlen :: "int \<Rightarrow> nat" where
  "bitlen n = (if n \<le> 0 then 0 else Suc (bitlen (n div 2)))"
  by pat_completeness auto
termination
  by (relation "measure nat") auto

declare bitlen.simps [simp del]

definition round53 :: "int \<Rightarrow> int" where
  "round53 n =
     (let e = bitlen n - 53; q = n div 2 ^ e; r = n mod 2 ^ e
      in if 2 * r > 2 ^ e \<or> (2 * r = 2 ^ e \<and> odd q) then (q + 1) * 2 ^ e else q * 2 ^ e)"

definition float64 :: "int \<Rightarrow> int" where
  "float64 i = (if i < 0 then - round53 (- i) else round53 i)"

fun to_float64 :: "sqlval \<Rightarrow> int" where
  "to_float64 (INTEGER i) = float64 i"
| "to_float64 (REAL r) = r"

text \<open>
  The engine's \<open>score - ?\<close> and \<open>score + ?\<close> with an integer parameter. Two INTEGERs are
  subtracted or added as 64-bit integers; when that overflows, and whenever the score
  is a REAL already, both operands are taken as doubles and the result is a REAL.
  No error is raised.
\<close>

fun sql_sub :: "sqlval \<Rightarrow> int \<Rightarrow> sqlval" where
  "sql_sub (INTEGER a) b =
     (if int64 (a - b) then INTEGER (a - b) else REAL (float64 (float64 a - float64 b)))"
| "sql_sub (REAL r) b = REAL (float64 (r - float64 b))"

fun sql_add :: "sqlval \<Rightarrow> int \<Rightarrow> sqlval" where
  "sql_add (INTEGER a) b =
     (if int64 (a + b) then INTEGER (a + b) else REAL (float64 (float64 a + float64 b)))"
| "sql_add (REAL r) b = REAL (float64 (r + float64 b))"

text \<open>
  The column \<open>score INTEGER\<close> has INTEGER affinity: a REAL written to it is stored as an
  INTEGER when it is a whole number strictly between the smallest and the largest
  64-bit integer, and stays a REAL otherwise.
\<close>

fun affinity_INTEGER :: "sqlval \<Rightarrow> sqlval" where
  "affinity_INTEGER (INTEGER i) = INTEGER i"
| "affinity_INTEGER (REAL r) = (if MinInt64 < r \<and> r < MaxInt64 then INTEGER r else REAL r)"

text \<open>The two SET expressions of \<open>transferScore\<close>, as the column receives them.\<close>

definition score_minus :: "int \<Rightarrow> sqlval \<Rightarrow> sqlval" where
  "score_minus amount v = affinity_INTEGER (sql_sub v amount)"

definition score_plus :: "int \<Rightarrow> sqlval \<Rightarrow> sqlval" where
  "score_plus amount v = affinity_INTEGER (sql_add v amount)"

text \<open>One row of the table \<open>users\<close>. The program writes no NULL into any column.\<close>

record Row =
  col_id :: int
  col_name :: string
  col_email :: string
  col_score :: sqlval

text \<open>The row that holds a user with an INTEGER score.\<close>

definition row_of :: "User \<Rightarrow> Row" where
  "row_of u = \<lparr>col_id = ID u, col_name = Name u, col_email = Email u, col_score = INTEGER (Score u)\<rparr>"

subsection \<open>Error values\<close>

text \<open>
  The Go error values the program meets. \<open>ErrNoRows\<close> and \<open>ErrTxDone\<close> are the sentinels
  of \<^verbatim>\<open>database/sql\<close>, \<open>DeadlineExceeded\<close> the one of \<^verbatim>\<open>context\<close>;
  \<open>ErrorString m\<close> is what \<^verbatim>\<open>errors.New(m)\<close> and \<^verbatim>\<open>fmt.Errorf\<close> without \<^verbatim>\<open>%w\<close> return (a fresh
  value holding a message only); \<open>WrapError m e\<close> is \<^verbatim>\<open>fmt.Errorf\<close> with \<^verbatim>\<open>%w\<close>, the message
  prefix \<open>m\<close> wrapped around \<open>e\<close>;
  \<open>Sqlite3Error code extended\<close> is the driver's \<^verbatim>\<open>sqlite3.Error\<close> with its result codes;
  \<open>ConvertError r\<close> is the message-only error \<^verbatim>\<open>database/sql\<close> makes (again by
  \<^verbatim>\<open>fmt.Errorf\<close> without \<^verbatim>\<open>%w\<close>) when the double \<open>r\<close> is to be scanned into an \<open>int\<close>:
  its text quotes the double in exponent form, which does not parse as an integer.
\<close>

datatype error =
    ErrNoRows
  | ErrTxDone
  | DeadlineExceeded
  | ErrorString string
  | WrapError string error
  | Sqlite3Error nat nat
  | ConvertError int

definition ErrConstraint :: nat where
  "ErrConstraint = 19"

definition ErrConstraintNotNull :: nat where
  "ErrConstraintNotNull = 1299"

definition ErrConstraintUnique :: nat where
  "ErrConstraintUnique = 2067"

text \<open>The dynamic type behind a Go \<open>error\<close> interface value, as a type switch or \<^verbatim>\<open>errors.As\<close> sees it.
  The two sentinels of \<^verbatim>\<open>database/sql\<close> are themselves made by \<^verbatim>\<open>errors.New\<close>.\<close>

datatype error_type =
    T_errorString
  | T_wrapError
  | T_deadlineExceededError
  | T_sqlite3_Error

fun type_of :: "error \<Rightarrow> error_type" where
  "type_of ErrNoRows = T_errorString"
| "type_of ErrTxDone = T_errorString"
| "type_of DeadlineExceeded = T_deadlineExceededError"
| "type_of (ErrorString m) = T_errorString"
| "type_of (WrapError m e) = T_wrapError"
| "type_of (Sqlite3Error c x) = T_sqlite3_Error"
| "type_of (ConvertError r) = T_errorString"

text \<open>\<^verbatim>\<open>errors.Unwrap\<close>: only a \<^verbatim>\<open>%w\<close> error has something inside.\<close>

fun Unwrap :: "error \<Rightarrow> error option" where
  "Unwrap (WrapError m e) = Some e"
| "Unwrap e = None"

text \<open>
  \<^verbatim>\<open>errors.Is(err, target)\<close>: walk the chain of wrapped errors and compare each link with
  the target by \<open>==\<close>. A value made by \<^verbatim>\<open>errors.New\<close> or \<^verbatim>\<open>fmt.Errorf\<close> at the moment of
  failure is a fresh pointer, equal to no target a caller can name.
\<close>

fun errors_Is :: "error \<Rightarrow> error \<Rightarrow> bool" where
  "errors_Is (WrapError m e) target = errors_Is e target"
| "errors_Is (ErrorString m) target = False"
| "errors_Is (ConvertError r) target = False"
| "errors_Is e target = (e = target)"

subsection \<open>Formatting\<close>

text \<open>\<^verbatim>\<open>%d\<close> of an integer: decimal digits, with a minus sign when negative.\<close>

fun digits :: "nat \<Rightarrow> string" where
  "digits n = (if n < 10 then [char_of (48 + n)] else digits (n div 10) @ [char_of (48 + n mod 10)])"

declare digits.simps [simp del]

definition itoa :: "int \<Rightarrow> string" where
  "itoa i = (if i < 0 then CHR ''-'' # digits (nat (- i)) else digits (nat i))"

text \<open>
  The message of line 117, \<^verbatim>\<open>fmt.Errorf("... ID %d ...", id)\<close>: the UTF-8 bytes of the
  Cyrillic text before and after the id (it reads: user with ID ... not found).
\<close>

definition not_found_prefix :: string where
  "not_found_prefix = map char_of
     [208, 191, 208, 190, 208, 187, 209, 140, 208, 183, 208, 190, 208, 178, 208, 176,
      209, 130, 208, 181, 208, 187, 209, 140, 32, 209, 129, 32, 73, 68, 32 :: nat]"

definition not_found_suffix :: string where
  "not_found_suffix = map char_of
     [32, 208, 189, 208, 181, 32, 208, 189, 208, 176, 208, 185, 208, 180, 208, 181,
      208, 189 :: nat]"

definition not_found_message :: "int \<Rightarrow> string" where
  "not_found_message i = not_found_prefix @ itoa i @ not_found_suffix"

text \<open>
  The prefix of line 198, \<^verbatim>\<open>fmt.Errorf("...: %w", err)\<close>: the UTF-8 bytes of the Cyrillic
  text (it reads: timeout exceeded) with the colon and the space.
\<close>

definition timeout_prefix :: string where
  "timeout_prefix = map char_of
     [208, 191, 209, 128, 208, 181, 208, 178, 209, 139, 209, 136, 208, 181, 208, 189, 32,
      209, 130, 208, 176, 208, 185, 208, 188, 208, 176, 209, 131, 209, 130, 58, 32 :: nat]"

text \<open>The prefix \<open>Rows.Scan\<close> puts, with \<^verbatim>\<open>%w\<close>, before the error of the fourth column.\<close>

definition scan_prefix :: string where
  "scan_prefix = ''sql: Scan error on column index 3, name '' @ [CHR 0x22] @ ''score''
     @ [CHR 0x22] @ '': ''"

section \<open>The store\<close>

text \<open>
  What the program writes with \<^verbatim>\<open>log.Printf\<close> and \<^verbatim>\<open>log.Println\<close>, one constructor for
  each call site of the functions modelled here (source line in brackets).
\<close>

datatype log_entry =
    Log_update_error error        \<comment> \<open>[101] the update of a score failed\<close>
  | Log_update_ok int int         \<comment> \<open>[103] score of user id updated to newScore\<close>
  | Log_begin_error error         \<comment> \<open>[149] the transaction could not be started\<close>
  | Log_debit_error error         \<comment> \<open>[157] the sender's score could not be decreased\<close>
  | Log_credit_error error        \<comment> \<open>[164] the receiver's score could not be increased\<close>
  | Log_commit_error error        \<comment> \<open>[171] Commit failed\<close>
  | Log_transfer_ok int int int   \<comment> \<open>[174] amount, fromID, toID: successful transfer\<close>
  | Log_query_attempt             \<comment> \<open>[187] trying to run the slow query\<close>
  | Log_query_ok                  \<comment> \<open>[204] the query ran, the context has not expired\<close>

text \<open>
  The life of a \<^verbatim>\<open>sql.Tx\<close>: open (holding what the table was when it began, to be put
  back by a rollback), then committed or rolled back; both are final.
\<close>

datatype tx_status =
    TxNone
  | TxOpen "Row list" int
  | TxCommitted
  | TxRolledBack

text \<open>
  Everything a call on \<^verbatim>\<open>db *sql.DB\<close> can read or change: the rows of \<open>users\<close> in rowid
  order, the AUTOINCREMENT counter of the table, the transaction last begun, the
  output of the logger, and \<open>faults\<close>, the failures the engine will meet: each call
  that reaches the engine takes the head of the list, \<open>None\<close> (or an empty list) when
  the engine answers, \<open>Some e\<close> when the call fails with \<open>e\<close> for a reason of its own
  (file, lock, connection, context).
\<close>

record DB =
  users :: "Row list"
  seq :: int
  tx :: tx_status
  faults :: "error option list"
  logs :: "log_entry list"

definition next_fault :: "DB \<Rightarrow> DB \<times> error option" where
  "next_fault db = (case faults db of [] \<Rightarrow> (db, None) | f # fs \<Rightarrow> (db\<lparr>faults := fs\<rparr>, f))"

definition log_Printf :: "log_entry \<Rightarrow> DB \<Rightarrow> DB" where
  "log_Printf l db = db\<lparr>logs := logs db @ [l]\<rparr>"

subsection \<open>The statements the program sends\<close>

text \<open>
  The schema of \<open>initDB\<close>:
  \<^verbatim>\<open>id INTEGER PRIMARY KEY AUTOINCREMENT, name TEXT NOT NULL, email TEXT UNIQUE, score INTEGER\<close>.
  A new rowid is one more than the largest the table has ever held.
\<close>

definition next_rowid :: "DB \<Rightarrow> int" where
  "next_rowid db = fold max (map col_id (users db)) (seq db) + 1"

text \<open>
  \<^verbatim>\<open>INSERT INTO users (name, email, score) VALUES (?, ?, ?)\<close>. The name is the only
  parameter modelled as nullable, for its NOT NULL constraint; the score, a Go \<open>int\<close>,
  is stored as an INTEGER. The result is \<open>LastInsertId\<close>. A statement that fails
  changes nothing.
\<close>

definition exec_insert :: "DB \<Rightarrow> string option \<Rightarrow> string \<Rightarrow> int \<Rightarrow> DB \<times> (error + int)" where
  "exec_insert db name email score =
     (case next_fault db of
        (db1, Some e) \<Rightarrow> (db1, Inl e)
      | (db1, None) \<Rightarrow>
          (case name of
             None \<Rightarrow> (db1, Inl (Sqlite3Error ErrConstraint ErrConstraintNotNull))
           | Some n \<Rightarrow>
               if email \<in> set (map col_email (users db1))
               then (db1, Inl (Sqlite3Error ErrConstraint ErrConstraintUnique))
               else let i = next_rowid db1
                    in (db1\<lparr>users := users db1 @
                              [\<lparr>col_id = i, col_name = n, col_email = email, col_score = INTEGER score\<rparr>],
                            seq := i\<rparr>, Inr i)))"

text \<open>
  \<^verbatim>\<open>UPDATE users SET score = <expr> WHERE id = ?\<close>, with the expression given as a function
  of the old score. Every row with that id is rewritten; the result is \<open>RowsAffected\<close>.
  No matching row is no error: the statement succeeds with 0 rows affected.
\<close>

definition set_score :: "(sqlval \<Rightarrow> sqlval) \<Rightarrow> int \<Rightarrow> Row list \<Rightarrow> Row list" where
  "set_score f i rs = map (\<lambda>r. if col_id r = i then r\<lparr>col_score := f (col_score r)\<rparr> else r) rs"

definition exec_update :: "DB \<Rightarrow> (sqlval \<Rightarrow> sqlval) \<Rightarrow> int \<Rightarrow> DB \<times> (error + nat)" where
  "exec_update db f i =
     (case next_fault db of
        (db1, Some e) \<Rightarrow> (db1, Inl e)
      | (db1, None) \<Rightarrow>
          (db1\<lparr>users := set_score f i (users db1)\<rparr>,
           Inr (length (filter (\<lambda>r. col_id r = i) (users db1)))))"

text \<open>
  \<open>Scan(&u.ID, &u.Name, &u.Email, &u.Score)\<close> of one row into a zero \<open>User\<close>: the columns
  are written in turn. An INTEGER score fills the last field; a REAL score cannot be
  converted to \<open>int\<close>, so \<open>Score\<close> stays 0 and the error names the column.
\<close>

definition scan_user :: "Row \<Rightarrow> User \<times> error option" where
  "scan_user r =
     (case col_score r of
        INTEGER s \<Rightarrow> (\<lparr>ID = col_id r, Name = col_name r, Email = col_email r, Score = s\<rparr>, None)
      | REAL x \<Rightarrow> (\<lparr>ID = col_id r, Name = col_name r, Email = col_email r, Score = 0\<rparr>,
                   Some (WrapError scan_prefix (ConvertError x))))"

text \<open>\<^verbatim>\<open>db.QueryRow("SELECT id, name, email, score FROM users WHERE id = ?", id)\<close> followed
  by \<open>Scan\<close> into a zero \<open>User\<close>; a missing row is reported as \<open>ErrNoRows\<close>.\<close>

definition query_row :: "DB \<Rightarrow> int \<Rightarrow> DB \<times> User \<times> error option" where
  "query_row db i =
     (case next_fault db of
        (db1, Some e) \<Rightarrow> (db1, zero_User, Some e)
      | (db1, None) \<Rightarrow>
          (case find (\<lambda>r. col_id r = i) (users db1) of
             None \<Rightarrow> (db1, zero_User, Some ErrNoRows)
           | Some r \<Rightarrow> (db1, scan_user r)))"

text \<open>
  \<^verbatim>\<open>db.Query("SELECT id, name, email, score FROM users ORDER BY score DESC")\<close>: the cursor
  holds the rows by falling score (INTEGER and REAL compared as numbers), rows of equal
  score in rowid order.
\<close>

definition query_all :: "DB \<Rightarrow> DB \<times> (error + Row list)" where
  "query_all db =
     (case next_fault db of
        (db1, Some e) \<Rightarrow> (db1, Inl e)
      | (db1, None) \<Rightarrow> (db1, Inr (sort_key (\<lambda>r. - num (col_score r)) (users db1))))"

text \<open>
  \<^verbatim>\<open>db.QueryContext(ctx, "SELECT * FROM users WHERE 1=1 AND ? = 1", 1)\<close>: a cursor on all
  rows, or the failure of the call; a call given up for the context's deadline fails
  with \<open>DeadlineExceeded\<close>.
\<close>

definition query_context :: "DB \<Rightarrow> DB \<times> (error + Row list)" where
  "query_context db =
     (case next_fault db of
        (db1, Some e) \<Rightarrow> (db1, Inl e)
      | (db1, None) \<Rightarrow> (db1, Inr (users db1)))"

subsection \<open>Transactions\<close>

text \<open>\<^verbatim>\<open>db.Begin()\<close>.\<close>

definition Begin :: "DB \<Rightarrow> DB \<times> error option" where
  "Begin db =
     (case next_fault db of
        (db1, Some e) \<Rightarrow> (db1, Some e)
      | (db1, None) \<Rightarrow> (db1\<lparr>tx := TxOpen (users db1) (seq db1)\<rparr>, None))"

text \<open>\<^verbatim>\<open>tx.Exec\<close> of an UPDATE: refused with \<open>ErrTxDone\<close> once the transaction is over.\<close>

definition tx_exec_update :: "DB \<Rightarrow> (sqlval \<Rightarrow> sqlval) \<Rightarrow> int \<Rightarrow> DB \<times> (error + nat)" where
  "tx_exec_update db f i =
     (case tx db of
        TxOpen us sq \<Rightarrow> exec_update db f i
      | _ \<Rightarrow> (db, Inl ErrTxDone))"

text \<open>
  \<^verbatim>\<open>tx.Commit()\<close>. The transaction is over when Commit returns, with or without an error:
  \<^verbatim>\<open>database/sql\<close> marks it done before it calls the driver, and the driver rolls back a
  transaction whose COMMIT failed.
\<close>

definition Commit :: "DB \<Rightarrow> DB \<times> error option" where
  "Commit db =
     (case tx db of
        TxOpen us sq \<Rightarrow>
          (case next_fault db of
             (db1, Some e) \<Rightarrow> (db1\<lparr>users := us, seq := sq, tx := TxRolledBack\<rparr>, Some e)
           | (db1, None) \<Rightarrow> (db1\<lparr>tx := TxCommitted\<rparr>, None))
      | _ \<Rightarrow> (db, Some ErrTxDone))"

text \<open>\<^verbatim>\<open>tx.Rollback()\<close>: puts the table back; on a transaction that is over it does nothing
  and returns \<open>ErrTxDone\<close>.\<close>

definition Rollback :: "DB \<Rightarrow> DB \<times> error option" where
  "Rollback db =
     (case tx db of
        TxOpen us sq \<Rightarrow> (db\<lparr>users := us, seq := sq, tx := TxRolledBack\<rparr>, None)
      | _ \<Rightarrow> (db, Some ErrTxDone))"

section \<open>The functions of sqlite.go\<close>

text \<open>\<open>insertUser\<close> [86-95]: returns the new id, or 0 and the error of \<open>Exec\<close>.\<close>

definition insertUser :: "DB \<Rightarrow> string \<Rightarrow> string \<Rightarrow> int \<Rightarrow> DB \<times> int \<times> error option" where
  "insertUser db name email score =
     (case exec_insert db (Some name) email score of
        (db1, Inl err) \<Rightarrow> (db1, 0, Some err)
      | (db1, Inr i) \<Rightarrow> (db1, i, None))"

text \<open>\<open>updateScore\<close> [98-105]: returns nothing; the outcome goes to the log only. The new
  score, a Go \<open>int\<close>, is written as an INTEGER.\<close>

definition updateScore :: "DB \<Rightarrow> int \<Rightarrow> int \<Rightarrow> DB" where
  "updateScore db i newScore =
     (case exec_update db (\<lambda>s. INTEGER newScore) i of
        (db1, Inl err) \<Rightarrow> log_Printf (Log_update_error err) db1
      | (db1, Inr n) \<Rightarrow> log_Printf (Log_update_ok i newScore) db1)"

text \<open>\<open>getUserByID\<close> [108-120]: \<open>ErrNoRows\<close> is replaced by a formatted message, any other
  error is returned as it is, next to whatever \<open>Scan\<close> has written into \<open>user\<close>.\<close>

definition getUserByID :: "DB \<Rightarrow> int \<Rightarrow> DB \<times> User \<times> error option" where
  "getUserByID db i =
     (case query_row db i of
        (db1, user, Some err) \<Rightarrow>
          if err = ErrNoRows then (db1, user, Some (ErrorString (not_found_message i)))
          else (db1, user, Some err)
      | (db1, user, None) \<Rightarrow> (db1, user, None))"

text \<open>
  The loop of \<open>getAllUsers\<close> [133-141] over the rows left in the cursor. \<open>rows.Next()\<close>
  reaches the engine and is false at the end of the rows or on a failure, which
  \<open>rows.Err()\<close> then reports next to the users read so far; a failing \<open>Scan\<close> (a failure
  of the engine, or a score that is no \<open>int\<close>) returns \<open>nil\<close> and its error.
\<close>

fun scan_rows :: "DB \<Rightarrow> Row list \<Rightarrow> User list \<Rightarrow> DB \<times> User list \<times> error option" where
  "scan_rows db [] us =
     (case next_fault db of (db1, e) \<Rightarrow> (db1, us, e))"
| "scan_rows db (r # rs) us =
     (case next_fault db of
        (db1, Some e) \<Rightarrow> (db1, us, Some e)
      | (db1, None) \<Rightarrow>
          (case next_fault db1 of
             (db2, Some e) \<Rightarrow> (db2, [], Some e)
           | (db2, None) \<Rightarrow>
               (case scan_user r of
                  (u, Some e) \<Rightarrow> (db2, [], Some e)
                | (u, None) \<Rightarrow> scan_rows db2 rs (us @ [u]))))"

text \<open>\<open>getAllUsers\<close> [123-142].\<close>

definition getAllUsers :: "DB \<Rightarrow> DB \<times> User list \<times> error option" where
  "getAllUsers db =
     (case query_all db of
        (db1, Inl err) \<Rightarrow> (db1, [], Some err)
      | (db1, Inr rows) \<Rightarrow> scan_rows db1 rows [])"

text \<open>
  \<open>transferScore\<close> [145-175] from the first \<open>tx.Exec\<close> to the return, on a transaction
  that has begun. The function returns nothing: each outcome is a line in the log.
  The arithmetic of the two UPDATEs is the engine's, not Go's.
\<close>

definition transferScore_body :: "DB \<Rightarrow> int \<Rightarrow> int \<Rightarrow> int \<Rightarrow> DB" where
  "transferScore_body db fromID toID amount =
     (case tx_exec_update db (score_minus amount) fromID of
        (db1, Inl err) \<Rightarrow> log_Printf (Log_debit_error err) db1
      | (db1, Inr n) \<Rightarrow>
          (case tx_exec_update db1 (score_plus amount) toID of
             (db2, Inl err) \<Rightarrow> log_Printf (Log_credit_error err) db2
           | (db2, Inr m) \<Rightarrow>
               (case Commit db2 of
                  (db3, Some err) \<Rightarrow> log_Printf (Log_commit_error err) db3
                | (db3, None) \<Rightarrow> log_Printf (Log_transfer_ok amount fromID toID) db3)))"

text \<open>
  \<open>transferScore\<close>: when \<open>Begin\<close> fails it logs and returns; otherwise
  \<^verbatim>\<open>defer tx.Rollback()\<close> runs after the body on every way out, its result dropped.
\<close>

definition transferScore :: "DB \<Rightarrow> int \<Rightarrow> int \<Rightarrow> int \<Rightarrow> DB" where
  "transferScore db fromID toID amount =
     (case Begin db of
        (db1, Some err) \<Rightarrow> log_Printf (Log_begin_error err) db1
      | (db1, None) \<Rightarrow> fst (Rollback (transferScore_body db1 fromID toID amount)))"

text \<open>
  \<open>queryWithTimeout\<close> [182-206]. The function has one parameter, the handle: the
  timeout of 1 ms is a constant of line 184, and the cursor is closed unread. What the
  clock contributes is \<open>expired\<close>, the answer to \<^verbatim>\<open>ctx.Err() == context.DeadlineExceeded\<close>
  when line 197 asks. The function returns an error or \<open>nil\<close>, never rows.
\<close>

definition queryWithTimeout :: "DB \<Rightarrow> bool \<Rightarrow> DB \<times> error option" where
  "queryWithTimeout db expired =
     (case query_context (log_Printf Log_query_attempt db) of
        (db1, Inl err) \<Rightarrow>
          if expired then (db1, Some (WrapError timeout_prefix err))
          else (db1, Some err)
      | (db1, Inr rows) \<Rightarrow> (log_Printf Log_query_ok db1, None))"

section \<open>Observations\<close>

definition score_of :: "DB \<Rightarrow> int \<Rightarrow> sqlval option" where
  "score_of db i = map_option col_score (find (\<lambda>r. col_id r = i) (users db))"

definition exists_id :: "DB \<Rightarrow> int \<Rightarrow> bool" where
  "exists_id db i = (i \<in> set (map col_id (users db)))"

text \<open>The sum of all scores, each taken as the number it is.\<close>

definition total_score :: "DB \<Rightarrow> int" where
  "total_score db = sum_list (map (\<lambda>r. num (col_score r)) (users db))"

text \<open>The PRIMARY KEY constraint: no two rows share an id.\<close>

definition primary_key :: "DB \<Rightarrow> bool" where
  "primary_key db = distinct (map col_id (users db))"

text \<open>Every score of the table is an INTEGER.\<close>

definition integer_scores :: "DB \<Rightarrow> bool" where
  "integer_scores db = list_all (\<lambda>r. is_INTEGER (col_score r)) (users db)"

text \<open>The engine answers the next \<open>n\<close> calls that reach it (it meets no failure of its own).\<close>

definition answers :: "nat \<Rightarrow> DB \<Rightarrow> bool" where
  "answers n db = list_all (\<lambda>f. f = None) (take n (faults db))"

text \<open>A transaction that is over, one way or the other.\<close>

fun released :: "tx_status \<Rightarrow> bool" where
  "released TxCommitted = True"
| "released TxRolledBack = True"
| "released t = False"

section \<open>Example stores\<close>

text \<open>The table after the two inserts of \<open>main\<close>, with an engine that never fails.\<close>

definition bank :: DB where
  "bank = \<lparr>users = [\<lparr>col_id = 1, col_name = ''Alice'', col_email = ''alice@example.com'',
                     col_score = INTEGER 100\<rparr>,
                   \<lparr>col_id = 2, col_name = ''Bob'', col_email = ''bob@example.com'',
                     col_score = INTEGER 150\<rparr>],
          seq = 2, tx = TxNone, faults = [], logs = []\<rparr>"

text \<open>The same table behind a handle that has been closed: the next call fails with the
  error \<^verbatim>\<open>database/sql\<close> makes with \<^verbatim>\<open>errors.New("sql: database is closed")\<close>.\<close>

definition bank_closed :: DB where
  "bank_closed = bank\<lparr>faults := [Some (ErrorString ''sql: database is closed'')]\<rparr>"

text \<open>The same table when the next call is given up for the deadline of its context.\<close>

definition bank_late :: DB where
  "bank_late = bank\<lparr>faults := [Some DeadlineExceeded]\<rparr>"

section \<open>Lemmas on the engine's arithmetic\<close>

lemma score_minus_fits: "int64 (s - a) \<Longrightarrow> score_minus a (INTEGER s) = INTEGER (s - a)"
  by (simp add: score_minus_def)

lemma score_plus_fits: "int64 (s + a) \<Longrightarrow> score_plus a (INTEGER s) = INTEGER (s + a)"
  by (simp add: score_plus_def)

text \<open>The conversions the examples below meet.\<close>

lemma float64_small: "float64 0 = 0" "float64 100 = 100" "float64 150 = 150"
  by (simp_all add: float64_def round53_def bitlen.simps Let_def)

lemma float64_MinInt64: "float64 MinInt64 = - 9223372036854775808"
  by (simp add: float64_def round53_def bitlen.simps Let_def MinInt64_def)

lemma float64_MaxInt64: "float64 MaxInt64 = 9223372036854775808"
  by (simp add: float64_def round53_def bitlen.simps Let_def MaxInt64_def)

lemma float64_above: "float64 9223372036854775908 = 9223372036854775808"
  "float64 9223372036854775958 = 9223372036854775808"
  by (simp_all add: float64_def round53_def bitlen.simps Let_def)

text \<open>150 minus the smallest integer overflows to the double \<open>2^63\<close>, which stays a REAL;
  adding the smallest integer to it gives the double 0, which is stored as an INTEGER.\<close>

lemma score_minus_MinInt64_150: "score_minus MinInt64 (INTEGER 150) = REAL 9223372036854775808"
  by (simp add: score_minus_def int64_def float64_small float64_MinInt64)
    (simp add: MinInt64_def MaxInt64_def float64_above)

lemma score_plus_MinInt64_back: "score_plus MinInt64 (REAL 9223372036854775808) = INTEGER 0"
  by (simp add: score_plus_def float64_MinInt64 float64_small)
    (simp add: MinInt64_def MaxInt64_def)

lemma score_minus_MaxInt64_150: "score_minus MaxInt64 (INTEGER 150) = INTEGER (- 9223372036854775657)"
  by (simp add: score_minus_def int64_def MinInt64_def MaxInt64_def)

lemma score_plus_MaxInt64_100: "score_plus MaxInt64 (INTEGER 100) = REAL 9223372036854775808"
  by (simp add: score_plus_def int64_def float64_small float64_MaxInt64)
    (simp add: MinInt64_def MaxInt64_def float64_above)

section \<open>Lemmas on the statements and on transferScore\<close>

lemma set_score_absent: "i \<notin> set (map col_id rs) \<Longrightarrow> set_score f i rs = rs"
  by (induction rs) (auto simp: set_score_def)

lemma map_col_id_set_score: "map col_id (set_score f i rs) = map col_id rs"
  by (induction rs) (auto simp: set_score_def)

lemma find_set_score_other:
  "j \<noteq> i \<Longrightarrow> find (\<lambda>r. col_id r = j) (set_score f i rs) = find (\<lambda>r. col_id r = j) rs"
  by (induction rs) (auto simp: set_score_def)

lemma find_set_score_same:
  "find (\<lambda>r. col_id r = i) (set_score f i rs) =
     map_option (\<lambda>r. r\<lparr>col_score := f (col_score r)\<rparr>) (find (\<lambda>r. col_id r = i) rs)"
  by (induction rs) (auto simp: set_score_def)

lemma find_id_None: "i \<notin> set (map col_id rs) \<Longrightarrow> find (\<lambda>r. col_id r = i) rs = None"
  by (induction rs) auto

lemma find_id_distinct:
  "distinct (map col_id rs) \<Longrightarrow> r \<in> set rs \<Longrightarrow> find (\<lambda>v. col_id v = col_id r) rs = Some r"
  by (induction rs) (auto simp: image_iff)

lemma find_id_set: "find (\<lambda>r. col_id r = i) rs = Some r \<Longrightarrow> r \<in> set rs \<and> col_id r = i"
  by (induction rs) (auto split: if_splits)

lemma score_of_exists: "score_of db i = Some v \<Longrightarrow> exists_id db i"
  by (auto simp: score_of_def exists_id_def dest: find_id_set)

lemma sum_set_score:
  "distinct (map col_id rs) \<Longrightarrow> find (\<lambda>r. col_id r = i) rs = Some r \<Longrightarrow>
     sum_list (map (\<lambda>r. num (col_score r)) (set_score f i rs))
       = sum_list (map (\<lambda>r. num (col_score r)) rs) - num (col_score r) + num (f (col_score r))"
proof (induction rs)
  case Nil
  then show ?case by simp
next
  case (Cons v vs)
  show ?case
  proof (cases "col_id v = i")
    case True
    with Cons.prems have ni: "i \<notin> set (map col_id vs)" and "r = v" by auto
    from ni have "set_score f i vs = vs" by (rule set_score_absent)
    moreover have "set_score f i (v # vs) = v\<lparr>col_score := f (col_score v)\<rparr> # set_score f i vs"
      using True by (simp add: set_score_def)
    ultimately show ?thesis using \<open>r = v\<close> by simp
  next
    case False
    with Cons show ?thesis by (simp add: set_score_def)
  qed
qed

lemma set_score_fixed:
  "(\<And>r. r \<in> set rs \<Longrightarrow> col_id r = i \<Longrightarrow> g (f (col_score r)) = col_score r) \<Longrightarrow>
     set_score g i (set_score f i rs) = rs"
  by (induction rs) (auto simp: set_score_def)

lemma set_score_cancel:
  assumes "distinct (map col_id rs)" and "find (\<lambda>r. col_id r = i) rs = Some r"
    and "col_score r = INTEGER s" and "int64 s" and "int64 (s - a)"
  shows "set_score (score_plus a) i (set_score (score_minus a) i rs) = rs"
proof (rule set_score_fixed)
  fix v assume v: "v \<in> set rs" "col_id v = i"
  with assms(1) have "find (\<lambda>r. col_id r = i) rs = Some v"
    using find_id_distinct by blast
  with assms(2) have "v = r" by simp
  with assms(3-5) show "score_plus a (score_minus a (col_score v)) = col_score v"
    by (simp add: score_minus_fits score_plus_fits)
qed

text \<open>The ways out of \<open>transferScore\<close>: what the log, the table and the transaction are
  after each.\<close>

lemma transferScore_outcome:
  "(\<exists>e. logs (transferScore db f t a) = logs db @ [Log_begin_error e]
        \<and> users (transferScore db f t a) = users db \<and> tx (transferScore db f t a) = tx db)
   \<or> (logs (transferScore db f t a) = logs db @ [Log_transfer_ok a f t]
        \<and> users (transferScore db f t a) = set_score (score_plus a) t (set_score (score_minus a) f (users db))
        \<and> tx (transferScore db f t a) = TxCommitted)
   \<or> (\<exists>e. (logs (transferScore db f t a) = logs db @ [Log_debit_error e]
             \<or> logs (transferScore db f t a) = logs db @ [Log_credit_error e]
             \<or> logs (transferScore db f t a) = logs db @ [Log_commit_error e])
        \<and> users (transferScore db f t a) = users db \<and> tx (transferScore db f t a) = TxRolledBack)"
  by (auto simp: transferScore_def transferScore_body_def Begin_def tx_exec_update_def
      exec_update_def Commit_def Rollback_def next_fault_def log_Printf_def
      split: list.splits option.splits)

lemma transferScore_answers:
  "answers 4 db \<Longrightarrow> logs (transferScore db f t a) = logs db @ [Log_transfer_ok a f t]"
  by (auto simp: transferScore_def transferScore_body_def Begin_def tx_exec_update_def
      exec_update_def Commit_def Rollback_def next_fault_def log_Printf_def answers_def
      numeral_eq_Suc take_Suc
      split: list.splits option.splits)

lemma transferScore_committed:
  "logs (transferScore db f t a) = logs db @ [Log_transfer_ok a f t] \<Longrightarrow>
     users (transferScore db f t a) = set_score (score_plus a) t (set_score (score_minus a) f (users db))"
  using transferScore_outcome [of db f t a] by auto

lemma transferScore_not_committed:
  "logs (transferScore db f t a) \<noteq> logs db @ [Log_transfer_ok a f t] \<Longrightarrow>
     users (transferScore db f t a) = users db"
  using transferScore_outcome [of db f t a] by auto

text \<open>The table after a transfer that the engine answers.\<close>

lemma transferScore_bank:
  "logs (transferScore bank f t a) = [Log_transfer_ok a f t]"
  "users (transferScore bank f t a) = set_score (score_plus a) t (set_score (score_minus a) f (users bank))"
proof -
  have "answers 4 bank" by (simp add: answers_def bank_def)
  then have l: "logs (transferScore bank f t a) = logs bank @ [Log_transfer_ok a f t]"
    by (rule transferScore_answers)
  then show "logs (transferScore bank f t a) = [Log_transfer_ok a f t]"
    by (simp add: bank_def)
  from l show "users (transferScore bank f t a)
      = set_score (score_plus a) t (set_score (score_minus a) f (users bank))"
    by (rule transferScore_committed)
qed

subsection \<open>The primary key\<close>

lemma fold_max_ge: "s \<le> fold max xs (s::int)"
proof (induction xs arbitrary: s)
  case Nil
  then show ?case by simp
next
  case (Cons x xs)
  have "s \<le> max x s" by simp
  also have "\<dots> \<le> fold max xs (max x s)" by (rule Cons.IH)
  finally show ?case by simp
qed

lemma fold_max_upper: "i \<in> set xs \<Longrightarrow> i \<le> fold max xs (s::int)"
proof (induction xs arbitrary: s)
  case Nil
  then show ?case by simp
next
  case (Cons x xs)
  show ?case
  proof (cases "i = x")
    case True
    have "x \<le> max x s" by simp
    also have "\<dots> \<le> fold max xs (max x s)" by (rule fold_max_ge)
    finally show ?thesis using True by simp
  next
    case False
    with Cons show ?thesis by simp
  qed
qed

lemma next_rowid_fresh: "next_rowid db \<notin> set (map col_id (users db))"
proof
  assume "next_rowid db \<in> set (map col_id (users db))"
  then have "next_rowid db \<le> fold max (map col_id (users db)) (seq db)" by (rule fold_max_upper)
  then show False by (simp add: next_rowid_def)
qed

text \<open>The primary key is kept by every function that writes.\<close>

lemma primary_key_insertUser:
  "primary_key db \<Longrightarrow> primary_key (fst (insertUser db name email score))"
  using next_rowid_fresh [of db] next_rowid_fresh [of "db\<lparr>faults := tl (faults db)\<rparr>"]
  by (auto simp: primary_key_def insertUser_def exec_insert_def next_fault_def Let_def next_rowid_def
      split: list.splits option.splits)

lemma primary_key_updateScore:
  "primary_key db \<Longrightarrow> primary_key (updateScore db i v)"
  by (auto simp: primary_key_def updateScore_def exec_update_def next_fault_def log_Printf_def
      map_col_id_set_score split: list.splits option.splits)

lemma primary_key_transferScore:
  "primary_key db \<Longrightarrow> primary_key (transferScore db f t a)"
  using transferScore_outcome [of db f t a]
  by (auto simp: primary_key_def map_col_id_set_score)

subsection \<open>The cursor of getAllUsers\<close>

lemma answers_Suc:
  "answers (Suc n) db = (case faults db of [] \<Rightarrow> True | f # fs \<Rightarrow> f = None \<and> answers n (db\<lparr>faults := fs\<rparr>))"
  by (simp add: answers_def split: list.splits)

lemma next_fault_answers:
  "answers (Suc n) db \<Longrightarrow> \<exists>db1. next_fault db = (db1, None) \<and> answers n db1 \<and> users db1 = users db
      \<and> seq db1 = seq db \<and> tx db1 = tx db \<and> logs db1 = logs db"
  by (auto simp: answers_Suc next_fault_def answers_def split: list.splits)

lemma next_fault_keeps:
  "next_fault db = (db1, e) \<Longrightarrow> users db1 = users db \<and> seq db1 = seq db \<and> tx db1 = tx db \<and> logs db1 = logs db"
  by (auto simp: next_fault_def split: list.splits)

lemma scan_user_row_of: "scan_user (row_of u) = (u, None)"
  by (simp add: scan_user_def row_of_def)

lemma scan_user_ok: "scan_user r = (u, None) \<Longrightarrow> row_of u = r"
  by (cases "col_score r") (auto simp: scan_user_def row_of_def)

lemma scan_user_INTEGER: "is_INTEGER (col_score r) \<Longrightarrow> \<exists>u. scan_user r = (u, None)"
  by (cases "col_score r") (auto simp: scan_user_def)

lemma scan_rows_success:
  "scan_rows db rs acc = (db', us, None) \<Longrightarrow> map row_of us = map row_of acc @ rs"
proof (induction rs arbitrary: db acc)
  case Nil
  then show ?case by (auto split: prod.splits)
next
  case (Cons r rs)
  from Cons.prems obtain db2 u where "scan_user r = (u, None)"
      and "scan_rows db2 rs (acc @ [u]) = (db', us, None)"
    by (auto split: prod.splits option.splits)
  with Cons.IH [of db2 "acc @ [u]"] show ?case by (simp add: scan_user_ok)
qed

lemma scan_rows_answers:
  "answers (2 * length rs + 1) db \<Longrightarrow> list_all (\<lambda>r. is_INTEGER (col_score r)) rs \<Longrightarrow>
     \<exists>db' us. scan_rows db rs acc = (db', us, None)"
proof (induction rs arbitrary: db acc)
  case Nil
  then show ?case using next_fault_answers [of 0 db] by auto
next
  case (Cons r rs)
  from Cons.prems have "answers (Suc (Suc (2 * length rs + 1))) db" by simp
  then obtain db1 where 1: "next_fault db = (db1, None)" "answers (Suc (2 * length rs + 1)) db1"
    using next_fault_answers by blast
  then obtain db2 where 2: "next_fault db1 = (db2, None)" "answers (2 * length rs + 1) db2"
    using next_fault_answers by blast
  from Cons.prems obtain u where u: "scan_user r = (u, None)"
    using scan_user_INTEGER by auto
  from Cons.prems have "list_all (\<lambda>r. is_INTEGER (col_score r)) rs" by simp
  from Cons.IH [OF 2(2) this, of "acc @ [u]"] 1 2 u show ?case by auto
qed

lemma sorted_desc_sort_key:
  "sorted_wrt (\<lambda>a b. num (col_score b) \<le> num (col_score a)) (sort_key (\<lambda>r. - num (col_score r)) rs)"
proof -
  have "sorted (map (\<lambda>r. - num (col_score r)) (sort_key (\<lambda>r. - num (col_score r)) rs))"
    by (rule sorted_sort_key)
  then show ?thesis by (simp add: sorted_map)
qed

lemma ties_sort_key:
  "filter (\<lambda>r. num (col_score r) = k) (sort_key (\<lambda>r. - num (col_score r)) rs)
     = filter (\<lambda>r. num (col_score r) = k) rs"
  using sort_key_stable [of "\<lambda>r. - num (col_score r)" "- k" rs] by simp

section \<open>Properties\<close>

subsection \<open>transferScore between two rows\<close>

text \<open>
  C1 as stated. For every pair of existing ids and every amount, a successful transfer
  leaves the sender's score at its old value minus the amount and the receiver's at its
  old value plus the amount, and the sum of all scores is kept. It fails in two ways.
  When both ids are the same row, the transfer of 20 from user 1 to user 1 is logged as
  successful and the score of user 1 is 100 as before, not 80. When the sum does not
  fit 64 bits, the transfer of the largest \<open>int\<close> from user 2 to user 1 is logged as
  successful, the score of user 1 is the REAL \<open>2^63\<close> and not 100 plus the amount, and
  the sum of the scores has gone from 250 to 151.
\<close>

theorem transferScore_same_id_counterexample:
  "score_of bank 1 = Some (INTEGER 100) \<and>
   logs (transferScore bank 1 1 20) = logs bank @ [Log_transfer_ok 20 1 1] \<and>
   score_of (transferScore bank 1 1 20) 1 \<noteq> Some (INTEGER (100 - 20)) \<and>
   int64 MaxInt64 \<and>
   logs (transferScore bank 2 1 MaxInt64) = logs bank @ [Log_transfer_ok MaxInt64 2 1] \<and>
   score_of (transferScore bank 2 1 MaxInt64) 1 = Some (REAL 9223372036854775808) \<and>
   score_of (transferScore bank 2 1 MaxInt64) 1 \<noteq> Some (INTEGER (100 + MaxInt64)) \<and>
   total_score bank = 250 \<and>
   total_score (transferScore bank 2 1 MaxInt64) = 151"
proof -
  have "score_of bank 1 = Some (INTEGER 100)" "total_score bank = 250" "logs bank = []"
    by (simp_all add: bank_def score_of_def total_score_def)
  moreover have "score_of (transferScore bank 1 1 20) 1 \<noteq> Some (INTEGER (100 - 20))"
    by (simp add: score_of_def transferScore_bank)
      (simp add: bank_def set_score_def score_minus_fits score_plus_fits int64_def
        MinInt64_def MaxInt64_def)
  moreover have "int64 MaxInt64"
    by (simp add: int64_def MinInt64_def MaxInt64_def)
  moreover have "users (transferScore bank 2 1 MaxInt64) =
      [\<lparr>col_id = 1, col_name = ''Alice'', col_email = ''alice@example.com'',
         col_score = REAL 9223372036854775808\<rparr>,
       \<lparr>col_id = 2, col_name = ''Bob'', col_email = ''bob@example.com'',
         col_score = INTEGER (- 9223372036854775657)\<rparr>]"
    by (simp add: transferScore_bank)
      (simp add: bank_def set_score_def score_minus_MaxInt64_150 score_plus_MaxInt64_100)
  ultimately show ?thesis
    by (simp add: score_of_def total_score_def transferScore_bank(1))
qed

text \<open>
  C1, amended. For two different existing ids (under the primary key) whose scores are
  INTEGERs, and every amount for which the sender's score minus the amount and the
  receiver's score plus the amount fit 64 bits: a transfer logged as successful leaves
  the sender's score at its old value minus the amount and the receiver's at its old
  value plus the amount; a transfer that is not logged as successful leaves every row
  as it was; and the sum of all scores is the same after the call as before in either
  case, whatever failures the engine meets.
\<close>

theorem transferScore_distinct_ids:
  assumes "primary_key db" and "fromID \<noteq> toID"
    and "score_of db fromID = Some (INTEGER s)" and "score_of db toID = Some (INTEGER r)"
    and "int64 (s - amount)" and "int64 (r + amount)"
  shows "(logs (transferScore db fromID toID amount) = logs db @ [Log_transfer_ok amount fromID toID] \<longrightarrow>
        score_of (transferScore db fromID toID amount) fromID = Some (INTEGER (s - amount)) \<and>
        score_of (transferScore db fromID toID amount) toID = Some (INTEGER (r + amount))) \<and>
     (logs (transferScore db fromID toID amount) \<noteq> logs db @ [Log_transfer_ok amount fromID toID] \<longrightarrow>
        users (transferScore db fromID toID amount) = users db) \<and>
     total_score (transferScore db fromID toID amount) = total_score db"
proof -
  let ?T = "transferScore db fromID toID amount"
  let ?ok = "logs db @ [Log_transfer_ok amount fromID toID]"
  let ?us = "set_score (score_minus amount) fromID (users db)"
  from assms(3) obtain u where u: "find (\<lambda>r. col_id r = fromID) (users db) = Some u"
      and us: "col_score u = INTEGER s"
    by (auto simp: score_of_def)
  from assms(4) obtain v where v: "find (\<lambda>r. col_id r = toID) (users db) = Some v"
      and vs: "col_score v = INTEGER r"
    by (auto simp: score_of_def)
  have d: "distinct (map col_id (users db))" using assms(1) by (simp add: primary_key_def)
  have v': "find (\<lambda>r. col_id r = toID) ?us = Some v"
    using v assms(2) by (simp add: find_set_score_other)
  have sum1: "sum_list (map (\<lambda>r. num (col_score r)) ?us)
      = sum_list (map (\<lambda>r. num (col_score r)) (users db)) - num (col_score u)
        + num (score_minus amount (col_score u))"
    using d u by (rule sum_set_score)
  have sum2: "sum_list (map (\<lambda>r. num (col_score r)) (set_score (score_plus amount) toID ?us))
      = sum_list (map (\<lambda>r. num (col_score r)) ?us) - num (col_score v)
        + num (score_plus amount (col_score v))"
    using v' d by (intro sum_set_score) (simp_all add: map_col_id_set_score)
  have committed: "score_of ?T fromID = Some (INTEGER (s - amount)) \<and>
      score_of ?T toID = Some (INTEGER (r + amount)) \<and> total_score ?T = total_score db"
    if "users ?T = set_score (score_plus amount) toID ?us"
    using that u v' us vs assms(2,5,6) sum1 sum2
    by (simp add: score_of_def total_score_def find_set_score_other find_set_score_same
        score_minus_fits score_plus_fits)
  have 1: "logs ?T = ?ok \<longrightarrow>
        score_of ?T fromID = Some (INTEGER (s - amount)) \<and> score_of ?T toID = Some (INTEGER (r + amount))"
    using transferScore_committed [of db fromID toID amount] committed by blast
  have 2: "logs ?T \<noteq> ?ok \<longrightarrow> users ?T = users db"
    using transferScore_not_committed [of db fromID toID amount] by blast
  have 3: "total_score ?T = total_score db"
  proof (cases "logs ?T = ?ok")
    case True
    then show ?thesis using transferScore_committed [of db fromID toID amount] committed by blast
  next
    case False
    with 2 show ?thesis by (simp add: total_score_def)
  qed
  from 1 2 3 show ?thesis by blast
qed

text \<open>At a concrete store: the transfer of \<open>main\<close>, 20 from user 2 to user 1.\<close>

theorem transferScore_distinct_ids_witness:
  "primary_key bank \<and> score_of bank 2 = Some (INTEGER 150) \<and> score_of bank 1 = Some (INTEGER 100) \<and>
   int64 (150 - 20) \<and> int64 (100 + 20) \<and>
   score_of (transferScore bank 2 1 20) 2 = Some (INTEGER 130) \<and>
   score_of (transferScore bank 2 1 20) 1 = Some (INTEGER 120) \<and>
   total_score (transferScore bank 2 1 20) = total_score bank"
proof -
  have h: "primary_key bank" "(2::int) \<noteq> 1"
    "score_of bank 2 = Some (INTEGER 150)" "score_of bank 1 = Some (INTEGER 100)"
    "int64 (150 - 20)" "int64 (100 + 20)"
    by (simp_all add: bank_def primary_key_def score_of_def int64_def MinInt64_def MaxInt64_def)
  have l: "logs (transferScore bank 2 1 20) = logs bank @ [Log_transfer_ok 20 2 1]"
    by (rule transferScore_answers) (simp add: answers_def bank_def)
  show ?thesis
    using transferScore_distinct_ids [OF h] h l by auto
qed

subsection \<open>transferScore with a missing id\<close>

text \<open>
  C2 as stated. A transfer in which fromID or toID names no row fails with a not-found
  error and leaves every score as it was. It does not: an UPDATE that matches no row
  is no error, so the transfer of 20 from user 1 to the missing user 99 is logged as
  successful, and the score of user 1 has gone from 100 to 80.
\<close>

theorem transferScore_missing_receiver_counterexample:
  "\<not> exists_id bank 99 \<and>
   logs (transferScore bank 1 99 20) = logs bank @ [Log_transfer_ok 20 1 99] \<and>
   score_of bank 1 = Some (INTEGER 100) \<and>
   score_of (transferScore bank 1 99 20) 1 = Some (INTEGER 80)"
proof -
  have "\<not> exists_id bank 99" "score_of bank 1 = Some (INTEGER 100)" "logs bank = []"
    by (simp_all add: bank_def exists_id_def score_of_def)
  moreover have "score_of (transferScore bank 1 99 20) 1 = Some (INTEGER 80)"
    by (simp add: score_of_def transferScore_bank)
      (simp add: bank_def set_score_def score_minus_fits int64_def MinInt64_def MaxInt64_def)
  ultimately show ?thesis by (simp add: transferScore_bank(1))
qed

text \<open>
  C2, amended. When fromID or toID names no row, transferScore reports no error for it:
  the function returns nothing and, when the engine answers its four calls, logs a
  successful transfer. After a transfer logged as successful, an existing sender with
  an INTEGER score has lost the amount and an existing receiver with an INTEGER score
  has gained it (each where the result fits 64 bits), while the table holds the same
  ids as before; every row other than fromID and toID keeps its score; when both ids
  are missing no row changes. A transfer that is not logged as successful leaves
  every row as it was.
\<close>

theorem transferScore_missing_id:
  assumes "\<not> exists_id db fromID \<or> \<not> exists_id db toID"
  shows "(answers 4 db \<longrightarrow>
            logs (transferScore db fromID toID amount) = logs db @ [Log_transfer_ok amount fromID toID]) \<and>
         (logs (transferScore db fromID toID amount) = logs db @ [Log_transfer_ok amount fromID toID] \<longrightarrow>
            (\<forall>s. score_of db fromID = Some (INTEGER s) \<and> int64 (s - amount) \<longrightarrow>
               score_of (transferScore db fromID toID amount) fromID = Some (INTEGER (s - amount))) \<and>
            (\<forall>r. score_of db toID = Some (INTEGER r) \<and> int64 (r + amount) \<longrightarrow>
               score_of (transferScore db fromID toID amount) toID = Some (INTEGER (r + amount)))) \<and>
         (logs (transferScore db fromID toID amount) \<noteq> logs db @ [Log_transfer_ok amount fromID toID] \<longrightarrow>
            users (transferScore db fromID toID amount) = users db) \<and>
         (\<forall>i. i \<noteq> fromID \<and> i \<noteq> toID \<longrightarrow>
            score_of (transferScore db fromID toID amount) i = score_of db i) \<and>
         (\<not> exists_id db fromID \<and> \<not> exists_id db toID \<longrightarrow>
            users (transferScore db fromID toID amount) = users db) \<and>
         (\<forall>i. exists_id (transferScore db fromID toID amount) i = exists_id db i)"
proof -
  let ?T = "transferScore db fromID toID amount"
  let ?ok = "logs db @ [Log_transfer_ok amount fromID toID]"
  let ?us = "set_score (score_plus amount) toID (set_score (score_minus amount) fromID (users db))"
  note out = transferScore_outcome [of db fromID toID amount]
  have ne: "fromID \<noteq> toID" if "score_of db fromID = Some v \<or> score_of db toID = Some v" for v
    using that assms score_of_exists by blast
  have c1: "score_of ?T fromID = Some (INTEGER (s - amount))"
    if "users ?T = ?us" "score_of db fromID = Some (INTEGER s)" "int64 (s - amount)" for s
  proof -
    from that(2) have "fromID \<noteq> toID" using ne by blast
    with that show ?thesis
      by (auto simp: score_of_def find_set_score_same find_set_score_other score_minus_fits)
  qed
  have c2: "score_of ?T toID = Some (INTEGER (r + amount))"
    if "users ?T = ?us" "score_of db toID = Some (INTEGER r)" "int64 (r + amount)" for r
  proof -
    from that(2) have "fromID \<noteq> toID" using ne by blast
    with that show ?thesis
      by (auto simp: score_of_def find_set_score_same find_set_score_other score_plus_fits)
  qed
  have o: "users ?T = ?us \<Longrightarrow> i \<noteq> fromID \<Longrightarrow> i \<noteq> toID \<Longrightarrow> score_of ?T i = score_of db i" for i
    by (simp add: score_of_def find_set_score_other)
  have n: "\<not> exists_id db fromID \<Longrightarrow> \<not> exists_id db toID \<Longrightarrow> ?us = users db"
    by (simp add: exists_id_def set_score_absent)
  have 1: "answers 4 db \<longrightarrow> logs ?T = ?ok"
    by (simp add: transferScore_answers)
  have 2: "logs ?T = ?ok \<longrightarrow>
            (\<forall>s. score_of db fromID = Some (INTEGER s) \<and> int64 (s - amount) \<longrightarrow>
               score_of ?T fromID = Some (INTEGER (s - amount))) \<and>
            (\<forall>r. score_of db toID = Some (INTEGER r) \<and> int64 (r + amount) \<longrightarrow>
               score_of ?T toID = Some (INTEGER (r + amount)))"
    using transferScore_committed [of db fromID toID amount] c1 c2 by blast
  have 3: "logs ?T \<noteq> ?ok \<longrightarrow> users ?T = users db"
    using transferScore_not_committed [of db fromID toID amount] by blast
  have 4: "\<forall>i. i \<noteq> fromID \<and> i \<noteq> toID \<longrightarrow> score_of ?T i = score_of db i"
    using out o by (auto simp: score_of_def)
  have 5: "\<not> exists_id db fromID \<and> \<not> exists_id db toID \<longrightarrow> users ?T = users db"
    using out n by auto
  have 6: "\<forall>i. exists_id ?T i = exists_id db i"
    using out by (auto simp: exists_id_def map_col_id_set_score simp flip: set_map)
  from 1 2 3 4 5 6 show ?thesis by blast
qed

text \<open>At a concrete store: user 1 pays 20 to the missing user 99.\<close>

theorem transferScore_missing_id_witness:
  "exists_id bank 1 \<and> \<not> exists_id bank 99 \<and> answers 4 bank \<and>
   score_of bank 1 = Some (INTEGER 100) \<and> int64 (100 - 20) \<and>
   logs (transferScore bank 1 99 20) = logs bank @ [Log_transfer_ok 20 1 99] \<and>
   score_of (transferScore bank 1 99 20) 1 = Some (INTEGER 80) \<and>
   score_of (transferScore bank 1 99 20) 2 = Some (INTEGER 150) \<and>
   \<not> exists_id (transferScore bank 1 99 20) 99"
proof -
  have h: "\<not> exists_id bank 1 \<or> \<not> exists_id bank 99"
    by (simp add: bank_def exists_id_def)
  have x: "exists_id bank 1" "\<not> exists_id bank 99"
    by (simp_all add: bank_def exists_id_def)
  have a: "answers 4 bank"
    by (simp add: answers_def bank_def)
  have s: "score_of bank 1 = Some (INTEGER 100)" "score_of bank 2 = Some (INTEGER 150)"
    "int64 (100 - 20)"
    by (simp_all add: bank_def score_of_def int64_def MinInt64_def MaxInt64_def)
  show ?thesis
    using transferScore_missing_id [OF h, of 20] x a s by auto
qed

subsection \<open>The transaction of transferScore\<close>

text \<open>
  C3. On every way out of transferScore the transaction it began is over: after the
  line of the successful transfer it is committed; after the line of a failed debit, a
  failed credit or a failed Commit it is rolled back. The only other way out is a
  failed Begin, where no transaction was begun and the status is the one before the
  call.
\<close>

theorem transferScore_tx_released:
  "(\<exists>e. logs (transferScore db fromID toID amount) = logs db @ [Log_begin_error e]
        \<and> tx (transferScore db fromID toID amount) = tx db)
   \<or> released (tx (transferScore db fromID toID amount)) \<and>
      (logs (transferScore db fromID toID amount) = logs db @ [Log_transfer_ok amount fromID toID]
          \<and> tx (transferScore db fromID toID amount) = TxCommitted
       \<or> (\<exists>e. logs (transferScore db fromID toID amount) = logs db @ [Log_debit_error e]
               \<or> logs (transferScore db fromID toID amount) = logs db @ [Log_credit_error e]
               \<or> logs (transferScore db fromID toID amount) = logs db @ [Log_commit_error e])
          \<and> tx (transferScore db fromID toID amount) = TxRolledBack)"
  using transferScore_outcome [of db fromID toID amount] by auto

subsection \<open>Transfer to oneself\<close>

text \<open>
  C9 as stated. For every existing id and every amount, a transfer from the row to
  itself leaves every score as it was. It does not when the debit overflows: the
  transfer of the smallest \<open>int\<close> from user 2 to user 2 is logged as successful and
  leaves the score of user 2 at 0, not at 150. (150 minus the amount is stored as the
  REAL \<open>2^63\<close>; adding the amount to that gives 0.)
\<close>

theorem transferScore_self_overflow_counterexample:
  "exists_id bank 2 \<and> int64 MinInt64 \<and>
   logs (transferScore bank 2 2 MinInt64) = logs bank @ [Log_transfer_ok MinInt64 2 2] \<and>
   score_of bank 2 = Some (INTEGER 150) \<and>
   score_of (transferScore bank 2 2 MinInt64) 2 = Some (INTEGER 0)"
proof -
  have "exists_id bank 2" "score_of bank 2 = Some (INTEGER 150)" "logs bank = []"
    by (simp_all add: bank_def exists_id_def score_of_def)
  moreover have "int64 MinInt64"
    by (simp add: int64_def MinInt64_def MaxInt64_def)
  moreover have "score_of (transferScore bank 2 2 MinInt64) 2 = Some (INTEGER 0)"
    by (simp add: score_of_def transferScore_bank)
      (simp add: bank_def set_score_def score_minus_MinInt64_150 score_plus_MinInt64_back)
  ultimately show ?thesis by (simp add: transferScore_bank(1))
qed

text \<open>
  C9, amended. For every existing id (under the primary key) whose score is a 64-bit
  INTEGER and every amount for which the score minus the amount fits 64 bits, a
  transfer from the row to itself leaves every row as it was (the debit and the credit
  cancel, and a failure rolls back); when the engine answers its four calls the
  transfer is logged as successful and committed.
\<close>

theorem transferScore_self:
  assumes "primary_key db" and "score_of db x = Some (INTEGER s)"
    and "int64 s" and "int64 (s - amount)"
  shows "users (transferScore db x x amount) = users db \<and>
   (answers 4 db \<longrightarrow> logs (transferScore db x x amount) = logs db @ [Log_transfer_ok amount x x]
      \<and> tx (transferScore db x x amount) = TxCommitted)"
proof -
  from assms(2) obtain u where u: "find (\<lambda>r. col_id r = x) (users db) = Some u"
      and us: "col_score u = INTEGER s"
    by (auto simp: score_of_def)
  from assms(1) have "distinct (map col_id (users db))" by (simp add: primary_key_def)
  from set_score_cancel [OF this u us assms(3,4)]
  show ?thesis
    using transferScore_outcome [of db x x amount] transferScore_answers [of db x x amount]
    by auto
qed

text \<open>At a concrete store: user 2 pays 500 to user 2.\<close>

theorem transferScore_self_witness:
  "primary_key bank \<and> score_of bank 2 = Some (INTEGER 150) \<and> int64 150 \<and> int64 (150 - 500) \<and>
   answers 4 bank \<and> users (transferScore bank 2 2 500) = users bank \<and>
   logs (transferScore bank 2 2 500) = logs bank @ [Log_transfer_ok 500 2 2]"
proof -
  have h: "primary_key bank" "score_of bank 2 = Some (INTEGER 150)" "int64 150" "int64 (150 - 500)"
    by (simp_all add: bank_def primary_key_def score_of_def int64_def MinInt64_def MaxInt64_def)
  have a: "answers 4 bank"
    by (simp add: answers_def bank_def)
  show ?thesis
    using transferScore_self [OF h] h a by simp
qed

subsection \<open>updateScore\<close>

text \<open>
  C10. For an id that names no row, updateScore leaves every row of the table as it
  was and hands nothing to its caller (its result is the store alone: the function has
  no error result); when the engine answers, the log even reports the update as done.
\<close>

theorem updateScore_missing_id:
  assumes "\<not> exists_id db i"
  shows "users (updateScore db i v) = users db \<and>
     (answers 1 db \<longrightarrow> logs (updateScore db i v) = logs db @ [Log_update_ok i v])"
  using assms
  by (auto simp: updateScore_def exec_update_def next_fault_def log_Printf_def exists_id_def
      answers_def set_score_absent split: list.splits option.splits)

text \<open>At a concrete store: the missing user 9.\<close>

theorem updateScore_missing_id_witness:
  "\<not> exists_id bank 9 \<and> answers 1 bank \<and> users (updateScore bank 9 5) = users bank \<and>
   logs (updateScore bank 9 5) = logs bank @ [Log_update_ok 9 5]"
proof -
  have h: "\<not> exists_id bank 9" by (simp add: bank_def exists_id_def)
  have a: "answers 1 bank" by (simp add: bank_def answers_def)
  show ?thesis using updateScore_missing_id [OF h, of 5] h a by simp
qed

subsection \<open>getUserByID\<close>

text \<open>
  C4 as stated. For an id without a row, getUserByID fails with a not-found error of a
  kind of its own, distinct from every other kind of failure. It does not: the error
  for the missing user 7 is a message-only value made by \<^verbatim>\<open>fmt.Errorf\<close> without \<^verbatim>\<open>%w\<close>.
  It has the dynamic type of the error a closed handle gives, wraps nothing, and does
  not match \<open>ErrNoRows\<close> under \<^verbatim>\<open>errors.Is\<close>; the two differ in their text only.
\<close>

theorem getUserByID_not_found_generic_counterexample:
  "snd (getUserByID bank 7) = (zero_User, Some (ErrorString (not_found_message 7))) \<and>
   snd (getUserByID bank_closed 1) = (zero_User, Some (ErrorString ''sql: database is closed'')) \<and>
   type_of (ErrorString (not_found_message 7)) = type_of (ErrorString ''sql: database is closed'') \<and>
   Unwrap (ErrorString (not_found_message 7)) = Unwrap (ErrorString ''sql: database is closed'') \<and>
   \<not> errors_Is (ErrorString (not_found_message 7)) ErrNoRows"
  by (simp add: getUserByID_def query_row_def next_fault_def bank_def bank_closed_def)

text \<open>
  C4, amended. For an id without a row (and an engine that answers), getUserByID
  returns the zero user and an error that holds only a message naming the id: its
  dynamic type is the one of every \<^verbatim>\<open>errors.New\<close> value, it wraps nothing and matches
  no target under \<^verbatim>\<open>errors.Is\<close>. A failure of the engine other than \<open>ErrNoRows\<close> is
  returned as it is. For an id with a row (under the primary key; the score an INTEGER,
  as in every row that insertUser or updateScore has written) it returns exactly the
  user that row holds and no error.
\<close>

theorem getUserByID_result:
  "(\<not> exists_id db i \<and> answers 1 db \<longrightarrow>
      snd (getUserByID db i) = (zero_User, Some (ErrorString (not_found_message i)))) \<and>
   type_of (ErrorString (not_found_message i)) = T_errorString \<and>
   Unwrap (ErrorString (not_found_message i)) = None \<and>
   (\<forall>target. \<not> errors_Is (ErrorString (not_found_message i)) target) \<and>
   (\<forall>e fs. faults db = Some e # fs \<and> e \<noteq> ErrNoRows \<longrightarrow>
      snd (getUserByID db i) = (zero_User, Some e)) \<and>
   (\<forall>u. primary_key db \<and> row_of u \<in> set (users db) \<and> ID u = i \<and> answers 1 db \<longrightarrow>
      snd (getUserByID db i) = (u, None))"
proof -
  have 1: "\<not> exists_id db i \<and> answers 1 db \<longrightarrow>
      snd (getUserByID db i) = (zero_User, Some (ErrorString (not_found_message i)))"
    by (auto simp: getUserByID_def query_row_def next_fault_def exists_id_def answers_def
        find_id_None split: list.splits)
  have 2: "\<forall>e fs. faults db = Some e # fs \<and> e \<noteq> ErrNoRows \<longrightarrow>
      snd (getUserByID db i) = (zero_User, Some e)"
    by (auto simp: getUserByID_def query_row_def next_fault_def)
  have 3: "snd (getUserByID db i) = (u, None)"
    if "primary_key db" "row_of u \<in> set (users db)" "ID u = i" "answers 1 db" for u
  proof -
    from that(1,2) have "find (\<lambda>v. col_id v = col_id (row_of u)) (users db) = Some (row_of u)"
      by (simp add: primary_key_def find_id_distinct)
    with that(3) have "find (\<lambda>v. col_id v = i) (users db) = Some (row_of u)"
      by (simp add: row_of_def)
    with that(4) show ?thesis
      by (auto simp: getUserByID_def query_row_def next_fault_def answers_def scan_user_row_of
          split: list.splits)
  qed
  from 1 2 3 show ?thesis by simp
qed

text \<open>At concrete stores: a missing id, a closed handle, and the row of user 2.\<close>

theorem getUserByID_result_witness:
  "\<not> exists_id bank 7 \<and> answers 1 bank \<and>
   snd (getUserByID bank 7) = (zero_User, Some (ErrorString (not_found_message 7))) \<and>
   snd (getUserByID bank_closed 1) = (zero_User, Some (ErrorString ''sql: database is closed'')) \<and>
   primary_key bank \<and>
   row_of \<lparr>ID = 2, Name = ''Bob'', Email = ''bob@example.com'', Score = 150\<rparr> \<in> set (users bank) \<and>
   snd (getUserByID bank 2)
     = (\<lparr>ID = 2, Name = ''Bob'', Email = ''bob@example.com'', Score = 150\<rparr>, None)"
proof -
  have h: "\<not> exists_id bank 7" "answers 1 bank" "primary_key bank"
    "row_of \<lparr>ID = 2, Name = ''Bob'', Email = ''bob@example.com'', Score = 150\<rparr> \<in> set (users bank)"
    by (simp_all add: bank_def exists_id_def answers_def primary_key_def row_of_def)
  have f: "faults bank_closed = [Some (ErrorString ''sql: database is closed'')]"
    by (simp add: bank_closed_def)
  have a: "snd (getUserByID bank 7) = (zero_User, Some (ErrorString (not_found_message 7)))"
    using getUserByID_result [of bank 7] h by blast
  have b: "snd (getUserByID bank_closed 1) = (zero_User, Some (ErrorString ''sql: database is closed''))"
    using getUserByID_result [of bank_closed 1] f by auto
  have c: "snd (getUserByID bank 2)
     = (\<lparr>ID = 2, Name = ''Bob'', Email = ''bob@example.com'', Score = 150\<rparr>, None)"
    using getUserByID_result [of bank 2] h by auto
  from h a b c show ?thesis by simp
qed

subsection \<open>getAllUsers\<close>

text \<open>
  C5. Every call of getAllUsers that returns no error returns all rows of the table by
  falling score: for users A before B in the result, the score of A is at least the
  score of B; users of equal score come in the order of the table. With an engine that
  answers every call of the loop, on a table of INTEGER scores, getAllUsers does
  return without error.
\<close>

theorem getAllUsers_sorted:
  "(\<forall>db' us. getAllUsers db = (db', us, None) \<longrightarrow>
      sorted_wrt (\<lambda>a b. Score b \<le> Score a) us \<and> mset (map row_of us) = mset (users db) \<and>
      (\<forall>k. map row_of (filter (\<lambda>u. Score u = k) us)
            = filter (\<lambda>r. num (col_score r) = k) (users db))) \<and>
   (answers (2 * length (users db) + 2) db \<and> integer_scores db \<longrightarrow>
      (\<exists>db' us. getAllUsers db = (db', us, None)))"
proof -
  let ?S = "sort_key (\<lambda>r. - num (col_score r)) (users db)"
  have "sorted_wrt (\<lambda>a b. Score b \<le> Score a) us \<and> mset (map row_of us) = mset (users db) \<and>
      (\<forall>k. map row_of (filter (\<lambda>u. Score u = k) us)
            = filter (\<lambda>r. num (col_score r) = k) (users db))"
    if g: "getAllUsers db = (db', us, None)" for db' us
  proof -
    obtain db1 e where nf: "next_fault db = (db1, e)" by (cases "next_fault db")
    with g have "e = None"
        and s: "scan_rows db1 (sort_key (\<lambda>r. - num (col_score r)) (users db1)) [] = (db', us, None)"
      by (auto simp: getAllUsers_def query_all_def split: option.splits)
    from nf have "users db1 = users db" by (simp add: next_fault_keeps)
    with scan_rows_success [OF s] have m: "map row_of us = ?S" by simp
    have "sorted_wrt (\<lambda>a b. num (col_score b) \<le> num (col_score a)) (map row_of us)"
      unfolding m by (rule sorted_desc_sort_key)
    then have 1: "sorted_wrt (\<lambda>a b. Score b \<le> Score a) us"
      by (simp add: sorted_wrt_map row_of_def)
    have 2: "mset (map row_of us) = mset (users db)"
      unfolding m by simp
    have 3: "map row_of (filter (\<lambda>u. Score u = k) us)
        = filter (\<lambda>r. num (col_score r) = k) (users db)" for k
    proof -
      have "map row_of (filter (\<lambda>u. Score u = k) us)
          = filter (\<lambda>r. num (col_score r) = k) (map row_of us)"
        by (simp add: filter_map comp_def row_of_def)
      also have "\<dots> = filter (\<lambda>r. num (col_score r) = k) (users db)"
        unfolding m by (rule ties_sort_key)
      finally show ?thesis .
    qed
    from 1 2 3 show ?thesis by blast
  qed
  moreover have "\<exists>db' us. getAllUsers db = (db', us, None)"
    if a: "answers (2 * length (users db) + 2) db" and i: "integer_scores db"
  proof -
    from a have "answers (Suc (2 * length (users db) + 1)) db" by simp
    then obtain db1 where nf: "next_fault db = (db1, None)"
        and a1: "answers (2 * length (users db) + 1) db1" and u: "users db1 = users db"
      using next_fault_answers by blast
    from a1 u have a2: "answers (2 * length (sort_key (\<lambda>r. - num (col_score r)) (users db1)) + 1) db1"
      by simp
    from i u have "list_all (\<lambda>r. is_INTEGER (col_score r)) (sort_key (\<lambda>r. - num (col_score r)) (users db1))"
      by (simp add: integer_scores_def list_all_iff)
    from scan_rows_answers [OF a2 this, of "[]"] nf show ?thesis
      by (auto simp: getAllUsers_def query_all_def)
  qed
  ultimately show ?thesis by blast
qed

text \<open>At a concrete store.\<close>

theorem getAllUsers_sorted_witness:
  "answers (2 * length (users bank) + 2) bank \<and> integer_scores bank \<and>
   (\<exists>db' us. getAllUsers bank = (db', us, None) \<and> sorted_wrt (\<lambda>a b. Score b \<le> Score a) us
      \<and> mset (map row_of us) = mset (users bank))"
proof -
  have a: "answers (2 * length (users bank) + 2) bank" "integer_scores bank"
    by (simp_all add: answers_def integer_scores_def bank_def)
  with getAllUsers_sorted [of bank] show ?thesis by blast
qed

subsection \<open>insertUser\<close>

text \<open>
  C6. When the email is already in the table, insertUser fails: it returns the id 0 and
  an error, and the table has the same rows as before (so the same number of rows);
  when the engine answers, the error is the driver's constraint error, extended code
  UNIQUE.
\<close>

theorem insertUser_duplicate_email:
  assumes "email \<in> set (map col_email (users db))"
  shows "\<exists>db' e. insertUser db name email score = (db', 0, Some e) \<and> users db' = users db \<and>
     (answers 1 db \<longrightarrow> e = Sqlite3Error ErrConstraint ErrConstraintUnique)"
  using assms
  by (auto simp: insertUser_def exec_insert_def next_fault_def answers_def
      split: list.splits option.splits)

text \<open>At a concrete store: a second row for bob@example.com.\<close>

theorem insertUser_duplicate_email_witness:
  "''bob@example.com'' \<in> set (map col_email (users bank)) \<and> answers 1 bank \<and>
   (\<exists>db'. insertUser bank ''Robert'' ''bob@example.com'' 7
            = (db', 0, Some (Sqlite3Error ErrConstraint ErrConstraintUnique)) \<and>
          users db' = users bank)"
proof -
  have h: "''bob@example.com'' \<in> set (map col_email (users bank))"
    by (simp add: bank_def)
  have a: "answers 1 bank" by (simp add: bank_def answers_def)
  from insertUser_duplicate_email [OF h, of "''Robert''" 7] h a show ?thesis by auto
qed

text \<open>
  C7 as stated. An insert with an empty name fails with a constraint error and no row
  is stored. It does not: the empty string is not NULL, so the insert succeeds with
  id 3 and the row with the empty name is in the table.
\<close>

theorem insertUser_empty_name_counterexample:
  "insertUser bank [] ''eve@example.com'' 5
     = (bank\<lparr>users := users bank @
                [row_of \<lparr>ID = 3, Name = [], Email = ''eve@example.com'', Score = 5\<rparr>],
             seq := 3\<rparr>, 3, None)"
  by (simp add: insertUser_def exec_insert_def next_fault_def next_rowid_def bank_def row_of_def)

text \<open>
  C7, amended. For every name, the empty one included, an insert with an email that is
  not yet in the table succeeds when the engine answers: it returns the new rowid and
  no error, and the table has one more row, holding exactly that name. The name is
  required only in that it must not be NULL: the engine refuses a NULL name with its
  NOT NULL constraint error, and insertUser, whose name is a Go string, never sends one.
\<close>

theorem insertUser_any_name:
  assumes "email \<notin> set (map col_email (users db))" and "answers 1 db"
  shows "(\<exists>db'. insertUser db name email score = (db', next_rowid db, None) \<and>
     users db' = users db @
       [row_of \<lparr>ID = next_rowid db, Name = name, Email = email, Score = score\<rparr>]) \<and>
     snd (exec_insert db None email score) = Inl (Sqlite3Error ErrConstraint ErrConstraintNotNull)"
  using assms
  by (auto simp: insertUser_def exec_insert_def next_fault_def next_rowid_def answers_def Let_def
      row_of_def split: list.splits option.splits)

text \<open>At a concrete store: the empty name.\<close>

theorem insertUser_any_name_witness:
  "''eve@example.com'' \<notin> set (map col_email (users bank)) \<and> answers 1 bank \<and>
   (\<exists>db'. insertUser bank [] ''eve@example.com'' 5 = (db', next_rowid bank, None) \<and>
     users db' = users bank @
       [row_of \<lparr>ID = next_rowid bank, Name = [], Email = ''eve@example.com'', Score = 5\<rparr>])"
proof -
  have h: "''eve@example.com'' \<notin> set (map col_email (users bank))"
    by (simp add: bank_def)
  have a: "answers 1 bank" by (simp add: bank_def answers_def)
  from insertUser_any_name [OF h a, of "[]" 5] h a show ?thesis by simp
qed

subsection \<open>queryWithTimeout\<close>

text \<open>
  C8 as stated. Whenever the deadline has passed before the read is done, an
  already passed deadline on a table with rows included, the query returns a
  \<open>DeadlineExceeded\<close> error that can be told from every other kind. It does not: with
  the deadline passed and the handle closed, \<^verbatim>\<open>QueryContext\<close> fails with the error of the
  closed handle (\<^verbatim>\<open>database/sql\<close> looks at the handle before it looks at the context),
  and line 198 wraps that error behind the timeout message: what is returned as a
  timeout does not match \<open>DeadlineExceeded\<close> under \<^verbatim>\<open>errors.Is\<close>.
\<close>

theorem queryWithTimeout_closed_counterexample:
  "users bank_closed \<noteq> [] \<and>
   snd (queryWithTimeout bank_closed True)
     = Some (WrapError timeout_prefix (ErrorString ''sql: database is closed'')) \<and>
   \<not> errors_Is (WrapError timeout_prefix (ErrorString ''sql: database is closed'')) DeadlineExceeded"
  by (simp add: queryWithTimeout_def query_context_def next_fault_def log_Printf_def
      bank_closed_def bank_def)

text \<open>
  C8, amended. queryWithTimeout takes no deadline from its caller: the wait is the
  constant of line 184. When the query is given up for the deadline and the context
  reports it, the function returns that error wrapped with \<^verbatim>\<open>%w\<close> behind the timeout
  message: the result matches \<open>DeadlineExceeded\<close> under \<^verbatim>\<open>errors.Is\<close> and has a dynamic
  type of its own. Any other failure of the query is returned as it is while the
  deadline has not passed, and wrapped in the same way once it has; the wrapped error
  matches \<open>DeadlineExceeded\<close> exactly when the failure of the query does. When the query
  succeeds the function returns no error. It never returns rows (it has no such
  result) and leaves the table as it was.
\<close>

theorem queryWithTimeout_result:
  "(\<forall>fs. faults db = Some DeadlineExceeded # fs \<longrightarrow>
      snd (queryWithTimeout db True) = Some (WrapError timeout_prefix DeadlineExceeded) \<and>
      errors_Is (WrapError timeout_prefix DeadlineExceeded) DeadlineExceeded \<and>
      type_of (WrapError timeout_prefix DeadlineExceeded) = T_wrapError) \<and>
   (\<forall>e fs. faults db = Some e # fs \<longrightarrow>
      snd (queryWithTimeout db False) = Some e \<and>
      snd (queryWithTimeout db True) = Some (WrapError timeout_prefix e) \<and>
      errors_Is (WrapError timeout_prefix e) DeadlineExceeded = errors_Is e DeadlineExceeded) \<and>
   (answers 1 db \<longrightarrow> snd (queryWithTimeout db expired) = None) \<and>
   users (fst (queryWithTimeout db expired)) = users db"
  by (auto simp: queryWithTimeout_def query_context_def next_fault_def log_Printf_def answers_def
      split: list.splits option.splits)

text \<open>At concrete stores: a query given up for the deadline, and one that is answered.\<close>

theorem queryWithTimeout_result_witness:
  "faults bank_late = [Some DeadlineExceeded] \<and>
   snd (queryWithTimeout bank_late True) = Some (WrapError timeout_prefix DeadlineExceeded) \<and>
   errors_Is (WrapError timeout_prefix DeadlineExceeded) DeadlineExceeded \<and>
   answers 1 bank \<and>
   snd (queryWithTimeout bank False) = None \<and>
   users (fst (queryWithTimeout bank False)) = users bank"
proof -
  have f: "faults bank_late = [Some DeadlineExceeded]"
    by (simp add: bank_late_def)
  have a: "answers 1 bank"
    by (simp add: answers_def bank_def)
  have 1: "snd (queryWithTimeout bank_late True) = Some (WrapError timeout_prefix DeadlineExceeded)"
    using queryWithTimeout_result [of bank_late True] f by blast
  have 2: "snd (queryWithTimeout bank False) = None \<and>
      users (fst (queryWithTimeout bank False)) = users bank"
    using queryWithTimeout_result [of bank False] a by blast
  from f a 1 2 show ?thesis by simp
qed

end
